theory Spec2Isabelle
  imports Main "HOL-Library.Sublist"
begin

section \<open>Data model of preprocessing.py\<close>

text \<open>
  The three frozen dataclasses (the second after the arrays it holds). A Python \<open>str\<close> is modelled as a \<open>string\<close> whose
  characters stand for the code points 0..255; Python integers are \<open>int\<close>.
  The alignment tuples are built by \<open>tuple(map(int, ...))\<close>, so at run time they have
  as many components as the token has dash-separated parts: they are \<open>int list\<close>.
\<close>

record SentencePair =
  source :: "string list"
  target :: "string list"

text \<open>
  What \<open>np.array(xs)\<close> makes of a list of Python integers: a one-dimensional array as
  long as \<open>xs\<close>. When \<open>xs\<close> is not empty and all its values lie in the range of
  int64, the array has a signed integer dtype and holds exactly the values of \<open>xs\<close>:
  \<open>IntArray xs\<close>. Otherwise numpy chooses another dtype (float64 for the empty list;
  uint64, float64, which rounds, or object for values beyond int64) and the stored
  values need not be those of \<open>xs\<close>: \<open>OtherArray xs\<close> stands for that array, known
  only by the list it was built from.
\<close>

datatype ndarray = IntArray (built_from: "int list") | OtherArray (built_from: "int list")

definition np_array :: "int list \<Rightarrow> ndarray" where
  "np_array xs =
     (if xs \<noteq> [] \<and> list_all (\<lambda>x. - (2 ^ 63) \<le> x \<and> x < 2 ^ 63) xs
      then IntArray xs else OtherArray xs)"

text \<open>\<open>len(a)\<close> of such an array.\<close>

definition array_len :: "ndarray \<Rightarrow> nat" where
  "array_len a = length (built_from a)"

record TokenizedSentencePair =
  source_tokens :: ndarray
  target_tokens :: ndarray

record LabeledAlignment =
  sure :: "int list list"
  possible :: "int list list"

text \<open>
  The exceptions that can leave \<open>extract_sentences\<close>: \<open>open\<close>/\<open>read\<close> failing,
  \<open>ET.fromstring\<close> rejecting the text, \<open>None.strip()\<close>, and the two \<open>ValueError\<close>s of
  \<open>int()\<close> (an invalid literal, reported with the string given to \<open>int\<close>, and the
  digit limit of the interpreter, reported with the number of digits).
\<close>

datatype error =
    OSError
  | ParseError
  | AttributeError
  | ValueError_invalid_literal string
  | ValueError_digit_limit nat

text \<open>
  What the code reads of an \<open>xml.etree.ElementTree.Element\<close>: its tag, its \<open>text\<close>
  attribute (\<open>None\<close> when the element has no character data before its first child)
  and its children in document order.
\<close>

datatype element = Element (tag: string) (elem_text: "string option") (children: "element list")

text \<open>
  The surroundings of the program: the readable files with their decoded text, the
  library parser \<open>ET.fromstring\<close> (\<open>None\<close> when it raises \<open>ParseError\<close>), and
  \<open>sys.get_int_max_str_digits()\<close> (0 when the limit is off or the interpreter has none;
  CPython admits no other value below 640).
\<close>

record env =
  files :: "string \<rightharpoonup> string"
  fromstring :: "string \<Rightarrow> element option"
  int_max_str_digits :: nat

section \<open>The string methods the code calls\<close>

text \<open>\<open>str.isspace\<close> on the code points below 256.\<close>

definition isspace :: "char \<Rightarrow> bool" where
  "isspace c \<longleftrightarrow> c \<in> {CHR 0x09, CHR 0x0A, CHR 0x0B, CHR 0x0C, CHR 0x0D,
     CHR 0x1C, CHR 0x1D, CHR 0x1E, CHR 0x1F, CHR 0x20, CHR 0x85, CHR 0xA0}"

text \<open>\<open>s.strip()\<close>\<close>

definition str_strip :: "string \<Rightarrow> string" where
  "str_strip s = rev (dropWhile isspace (rev (dropWhile isspace s)))"

text \<open>\<open>s.split()\<close>: the maximal runs of non-whitespace; \<open>w\<close> is the run being read, reversed.\<close>

fun split_runs :: "string \<Rightarrow> string \<Rightarrow> string list" where
  "split_runs w [] = (if w = [] then [] else [rev w])"
| "split_runs w (c # cs) =
     (if isspace c then (if w = [] then split_runs [] cs else rev w # split_runs [] cs)
      else split_runs (c # w) cs)"

definition str_split :: "string \<Rightarrow> string list" where
  "str_split s = split_runs [] s"

text \<open>\<open>s.split(d)\<close> for a separator of one character: one more part than separators.\<close>

fun str_split_sep :: "char \<Rightarrow> string \<Rightarrow> string list" where
  "str_split_sep d [] = [[]]"
| "str_split_sep d (c # cs) =
     (if c = d then [] # str_split_sep d cs
      else (case str_split_sep d cs of [] \<Rightarrow> [[c]] | w # ws \<Rightarrow> (c # w) # ws))"

text \<open>\<open>s.replace(old, new)\<close>: left to right, occurrences that do not overlap.\<close>

function str_replace :: "string \<Rightarrow> string \<Rightarrow> string \<Rightarrow> string" where
  "str_replace old new [] = (if old = [] then new else [])"
| "str_replace old new (c # cs) =
     (if old = [] then new @ c # str_replace old new cs
      else if prefix old (c # cs) then new @ str_replace old new (drop (length old) (c # cs))
      else c # str_replace old new cs)"
  by pat_completeness auto
termination
  by (relation "measure (\<lambda>(old, new, s). length s)") auto

section \<open>The built-in int on a string\<close>

text \<open>
  \<open>int(s)\<close> in base 10: whitespace around the number is skipped (the ASCII whitespace
  and, of the other code points below 256, U+0085 and U+00A0), then an optional sign, then
  decimal digits with single underscores between them. The scan over digits and
  underscores rejects a misplaced underscore first, then the digit limit applies, then
  an empty number or anything left after it is an invalid literal.
\<close>

definition int_space :: "char \<Rightarrow> bool" where
  "int_space c \<longleftrightarrow> c \<in> {CHR 0x09, CHR 0x0A, CHR 0x0B, CHR 0x0C, CHR 0x0D, CHR 0x20,
     CHR 0x85, CHR 0xA0}"

definition is_digit :: "char \<Rightarrow> bool" where
  "is_digit c \<longleftrightarrow> c \<in> set ''0123456789''"

definition digit_value :: "char \<Rightarrow> int" where
  "digit_value c = of_char c - 48"

definition digits_value :: "string \<Rightarrow> int" where
  "digits_value ds = foldl (\<lambda>a c. 10 * a + digit_value c) 0 ds"

fun underscores_ok :: "string \<Rightarrow> bool" where
  "underscores_ok [] = False"
| "underscores_ok [c] = is_digit c"
| "underscores_ok (c # d # cs) =
     (if is_digit c then (if d = CHR ''_'' then underscores_ok cs else underscores_ok (d # cs))
      else False)"

definition py_int :: "nat \<Rightarrow> string \<Rightarrow> error + int" where
  "py_int lim s =
     (let t = dropWhile int_space s;
          neg = (t \<noteq> [] \<and> hd t = CHR ''-'');
          u = (if t \<noteq> [] \<and> (hd t = CHR ''-'' \<or> hd t = CHR ''+'') then tl t else t);
          num = takeWhile (\<lambda>c. is_digit c \<or> c = CHR ''_'') u;
          rest = dropWhile int_space (dropWhile (\<lambda>c. is_digit c \<or> c = CHR ''_'') u);
          ds = filter is_digit num
      in if num \<noteq> [] \<and> \<not> underscores_ok num then Inl (ValueError_invalid_literal s)
         else if 0 < lim \<and> lim < length ds then Inl (ValueError_digit_limit (length ds))
         else if num = [] then Inl (ValueError_invalid_literal s)
         else if rest \<noteq> [] then Inl (ValueError_invalid_literal s)
         else Inr (if neg then - digits_value ds else digits_value ds))"

section \<open>extract\_sentences\<close>

text \<open>A comprehension or \<open>map\<close> whose body may raise stops at the first exception.\<close>

fun traverse :: "('a \<Rightarrow> error + 'b) \<Rightarrow> 'a list \<Rightarrow> error + 'b list" where
  "traverse f [] = Inr []"
| "traverse f (x # xs) =
     (case f x of Inl e \<Rightarrow> Inl e
      | Inr y \<Rightarrow> (case traverse f xs of Inl e \<Rightarrow> Inl e | Inr ys \<Rightarrow> Inr (y # ys)))"

text \<open>\<open>e.findall(t)\<close> and \<open>e.find(t)\<close> for a plain tag: the children with that tag, the first of them.\<close>

definition findall :: "string \<Rightarrow> element \<Rightarrow> element list" where
  "findall t e = filter (\<lambda>c. tag c = t) (children e)"

definition find_child :: "string \<Rightarrow> element \<Rightarrow> element option" where
  "find_child t e = (case findall t e of [] \<Rightarrow> None | c # _ \<Rightarrow> Some c)"

text \<open>\<open>x.text.strip().split() if x is not None else []\<close>\<close>

definition text_tokens :: "element option \<Rightarrow> error + string list" where
  "text_tokens x =
     (case x of None \<Rightarrow> Inr []
      | Some el \<Rightarrow> (case elem_text el of None \<Rightarrow> Inl AttributeError
                    | Some t \<Rightarrow> Inr (str_split (str_strip t))))"

text \<open>\<open>tuple(map(int, pair.split('-')))\<close>\<close>

definition parse_pair :: "nat \<Rightarrow> string \<Rightarrow> error + int list" where
  "parse_pair lim pair = traverse (py_int lim) (str_split_sep (CHR ''-'') pair)"

text \<open>
  The alignment list of a field: empty unless \<open>x is not None and x.text\<close>, else one
  tuple per whitespace-separated token.
\<close>

definition field_alignments :: "nat \<Rightarrow> element option \<Rightarrow> error + int list list" where
  "field_alignments lim x =
     (case x of None \<Rightarrow> Inr []
      | Some el \<Rightarrow> (case elem_text el of None \<Rightarrow> Inr []
                    | Some t \<Rightarrow> if t = [] then Inr []
                               else traverse (parse_pair lim) (str_split (str_strip t))))"

text \<open>The body of the loop over the sentence elements, in the order the code evaluates it.\<close>

definition sentence :: "nat \<Rightarrow> element \<Rightarrow> error + SentencePair \<times> LabeledAlignment" where
  "sentence lim s =
     (case text_tokens (find_child ''english'' s) of Inl e \<Rightarrow> Inl e
      | Inr english_text \<Rightarrow>
     (case text_tokens (find_child ''czech'' s) of Inl e \<Rightarrow> Inl e
      | Inr czech_text \<Rightarrow>
     (case field_alignments lim (find_child ''sure'' s) of Inl e \<Rightarrow> Inl e
      | Inr sure_alignments \<Rightarrow>
     (case field_alignments lim (find_child ''possible'' s) of Inl e \<Rightarrow> Inl e
      | Inr possible_alignments \<Rightarrow>
          Inr (\<lparr>source = english_text, target = czech_text\<rparr>,
               \<lparr>sure = sure_alignments, possible = possible_alignments\<rparr>)))))"

text \<open>The loop, with the two lists it appends to.\<close>

fun sentences_loop :: "nat \<Rightarrow> element list \<Rightarrow> SentencePair list \<Rightarrow> LabeledAlignment list
    \<Rightarrow> error + SentencePair list \<times> LabeledAlignment list" where
  "sentences_loop lim [] sentence_pairs alignments = Inr (sentence_pairs, alignments)"
| "sentences_loop lim (s # ss) sentence_pairs alignments =
     (case sentence lim s of Inl e \<Rightarrow> Inl e
      | Inr (sentence_pair, alignment) \<Rightarrow>
          sentences_loop lim ss (sentence_pairs @ [sentence_pair]) (alignments @ [alignment]))"

definition extract_sentences :: "env \<Rightarrow> string
    \<Rightarrow> error + SentencePair list \<times> LabeledAlignment list" where
  "extract_sentences ev filename =
     (case files ev filename of None \<Rightarrow> Inl OSError
      | Some content \<Rightarrow>
     (case fromstring ev (str_replace ''&'' ''&amp;'' content) of None \<Rightarrow> Inl ParseError
      | Some root \<Rightarrow> sentences_loop (int_max_str_digits ev) (findall ''s'' root) [] []))"

section \<open>get\_token\_to\_index\<close>

text \<open>The loop that extends the two token lists.\<close>

fun collect_tokens :: "SentencePair list \<Rightarrow> string list \<Rightarrow> string list
    \<Rightarrow> string list \<times> string list" where
  "collect_tokens [] src_tokens tgt_tokens = (src_tokens, tgt_tokens)"
| "collect_tokens (pair # pairs) src_tokens tgt_tokens =
     collect_tokens pairs (src_tokens @ source pair) (tgt_tokens @ target pair)"

text \<open>
  \<open>Counter(tokens)\<close>: a dict, so its keys stand in the order of their first insertion;
  each further occurrence adds one to the count of its key.
\<close>

fun counter_add :: "'a \<Rightarrow> ('a \<times> nat) list \<Rightarrow> ('a \<times> nat) list" where
  "counter_add x [] = [(x, 1)]"
| "counter_add x ((k, n) # kvs) =
     (if k = x then (k, n + 1) # kvs else (k, n) # counter_add x kvs)"

definition Counter :: "'a list \<Rightarrow> ('a \<times> nat) list" where
  "Counter xs = foldl (\<lambda>c x. counter_add x c) [] xs"

definition counter_keys :: "('a \<times> nat) list \<Rightarrow> 'a list" where
  "counter_keys c = map fst c"

text \<open>\<open>c[x]\<close> of a Counter: 0 for a key it does not hold.\<close>

definition counter_get :: "('a \<times> nat) list \<Rightarrow> 'a \<Rightarrow> nat" where
  "counter_get c x = (case map_of c x of None \<Rightarrow> 0 | Some n \<Rightarrow> n)"

text \<open>
  \<open>sorted(xs, key=k, reverse=True)\<close>: descending in the key, and stable (elements with
  equal keys keep their order in \<open>xs\<close>).
\<close>

definition sorted_reverse :: "('a \<Rightarrow> nat) \<Rightarrow> 'a list \<Rightarrow> 'a list" where
  "sorted_reverse k xs = sort_key (\<lambda>x. - int (k x)) xs"

text \<open>\<open>xs[:n]\<close>: a negative \<open>n\<close> counts from the end.\<close>

definition slice_to :: "int \<Rightarrow> 'a list \<Rightarrow> 'a list" where
  "slice_to n xs = (if 0 \<le> n then take (nat n) xs else take (length xs - nat (- n)) xs)"

text \<open>\<open>{token: i for i, token in enumerate(tokens)}\<close>, one entry stored after the other.\<close>

fun enumerate_dict :: "int \<Rightarrow> 'a list \<Rightarrow> ('a \<rightharpoonup> int) \<Rightarrow> ('a \<rightharpoonup> int)" where
  "enumerate_dict i [] d = d"
| "enumerate_dict i (token # tokens) d = enumerate_dict (i + 1) tokens (d(token \<mapsto> i))"

definition sorted_tokens :: "string list \<Rightarrow> string list" where
  "sorted_tokens tokens =
     (let counted = Counter tokens in sorted_reverse (counter_get counted) (counter_keys counted))"

definition apply_cutoff :: "int option \<Rightarrow> 'a list \<Rightarrow> 'a list" where
  "apply_cutoff freq_cutoff xs = (case freq_cutoff of None \<Rightarrow> xs | Some n \<Rightarrow> slice_to n xs)"

definition get_token_to_index :: "SentencePair list \<Rightarrow> int option
    \<Rightarrow> (string \<rightharpoonup> int) \<times> (string \<rightharpoonup> int)" where
  "get_token_to_index sentence_pairs freq_cutoff =
     (case collect_tokens sentence_pairs [] [] of
        (src_tokens, tgt_tokens) \<Rightarrow>
          (enumerate_dict 0 (apply_cutoff freq_cutoff (sorted_tokens src_tokens)) Map.empty,
           enumerate_dict 0 (apply_cutoff freq_cutoff (sorted_tokens tgt_tokens)) Map.empty))"

section \<open>tokenize\_sents\<close>

text \<open>\<open>[d[token] for token in tokens if token in d]\<close>\<close>

fun indices :: "(string \<rightharpoonup> int) \<Rightarrow> string list \<Rightarrow> int list" where
  "indices d [] = []"
| "indices d (token # tokens) =
     (case d token of None \<Rightarrow> indices d tokens | Some i \<Rightarrow> i # indices d tokens)"

fun tokenize_loop :: "SentencePair list \<Rightarrow> (string \<rightharpoonup> int) \<Rightarrow> (string \<rightharpoonup> int)
    \<Rightarrow> TokenizedSentencePair list \<Rightarrow> TokenizedSentencePair list" where
  "tokenize_loop [] source_dict target_dict tokenized_sentence_pairs = tokenized_sentence_pairs"
| "tokenize_loop (pair # pairs) source_dict target_dict tokenized_sentence_pairs =
     (let source_indices = indices source_dict (source pair);
          target_indices = indices target_dict (target pair)
      in if length source_indices = 0 \<or> length target_indices = 0
         then tokenize_loop pairs source_dict target_dict tokenized_sentence_pairs
         else tokenize_loop pairs source_dict target_dict
                (tokenized_sentence_pairs @
                   [\<lparr>source_tokens = np_array source_indices,
                     target_tokens = np_array target_indices\<rparr>]))"

definition tokenize_sents :: "SentencePair list \<Rightarrow> (string \<rightharpoonup> int) \<Rightarrow> (string \<rightharpoonup> int)
    \<Rightarrow> TokenizedSentencePair list" where
  "tokenize_sents sentence_pairs source_dict target_dict =
     tokenize_loop sentence_pairs source_dict target_dict []"

section \<open>Notions used in the statements\<close>

text \<open>The position at which \<open>x\<close> first stands in \<open>xs\<close> (the length of \<open>xs\<close> when it never does).\<close>

definition first_occurrence :: "'a list \<Rightarrow> 'a \<Rightarrow> nat" where
  "first_occurrence xs x = length (takeWhile (\<lambda>y. y \<noteq> x) xs)"

text \<open>The tokens of one language that receive an index, in the order of their indices.\<close>

definition vocabulary :: "int option \<Rightarrow> string list \<Rightarrow> string list" where
  "vocabulary freq_cutoff tokens = apply_cutoff freq_cutoff (sorted_tokens tokens)"

text \<open>The tokenized pair that the loop of \<open>tokenize_sents\<close> builds from one sentence pair.\<close>

definition tokenized :: "(string \<rightharpoonup> int) \<Rightarrow> (string \<rightharpoonup> int) \<Rightarrow> SentencePair
    \<Rightarrow> TokenizedSentencePair" where
  "tokenized sd td p =
     \<lparr>source_tokens = np_array (indices sd (source p)),
      target_tokens = np_array (indices td (target p))\<rparr>"

text \<open>
  Surroundings with one readable file \<open>path\<close> of text \<open>content\<close>, in which the
  parser accepts the one text \<open>xml\<close> and returns \<open>root\<close> for it, with the digit
  limit at its default.
\<close>

definition corpus_env :: "string \<Rightarrow> string \<Rightarrow> string \<Rightarrow> element \<Rightarrow> env" where
  "corpus_env path content xml root =
     \<lparr>files = [path \<mapsto> content],
      fromstring = (\<lambda>s. if s = xml then Some root else None),
      int_max_str_digits = 4300\<rparr>"

text \<open>The list of a \<open>LabeledAlignment\<close> that is read from the field of a given tag.\<close>

definition alignment_field :: "string \<Rightarrow> LabeledAlignment \<Rightarrow> int list list" where
  "alignment_field field a = (if field = ''sure'' then sure a else possible a)"

section \<open>extract\_sentences: what is read from the file\<close>

subsection \<open>The loop and its errors\<close>

lemma traverse_Inr_iff: "traverse f xs = Inr ys \<longleftrightarrow> list_all2 (\<lambda>x y. f x = Inr y) xs ys"
proof (induction xs arbitrary: ys)
  case Nil
  show ?case by auto
next
  case (Cons x xs)
  show ?case
    by (cases ys) (auto simp: Cons [symmetric] split: sum.splits)
qed

lemma traverse_fails: "x \<in> set xs \<Longrightarrow> f x = Inl e \<Longrightarrow> \<exists>e'. traverse f xs = Inl e'"
  by (induction xs) (auto split: sum.splits)

lemma traverse_error_from: "traverse f xs = Inl e \<Longrightarrow> \<exists>x \<in> set xs. f x = Inl e"
  by (induction xs) (auto split: sum.splits)

lemma sentences_loop_traverse:
  "sentences_loop lim ss sps als =
     (case traverse (sentence lim) ss of Inl e \<Rightarrow> Inl e
      | Inr ps \<Rightarrow> Inr (sps @ map fst ps, als @ map snd ps))"
  by (induction ss arbitrary: sps als) (auto split: sum.splits)

lemma extract_sentences_Inr:
  assumes "extract_sentences ev filename = Inr (sentence_pairs, alignments)"
  shows "\<exists>content root. files ev filename = Some content
      \<and> fromstring ev (str_replace ''&'' ''&amp;'' content) = Some root
      \<and> list_all2 (\<lambda>s p. sentence (int_max_str_digits ev) s = Inr p)
            (findall ''s'' root) (zip sentence_pairs alignments)
      \<and> length sentence_pairs = length alignments"
proof -
  obtain content where c: "files ev filename = Some content"
    using assms by (auto simp: extract_sentences_def split: option.splits)
  obtain root where r: "fromstring ev (str_replace ''&'' ''&amp;'' content) = Some root"
    using assms c by (auto simp: extract_sentences_def split: option.splits)
  obtain ps where ps: "traverse (sentence (int_max_str_digits ev)) (findall ''s'' root) = Inr ps"
    and sp: "sentence_pairs = map fst ps" and al: "alignments = map snd ps"
    using assms c r by (auto simp: extract_sentences_def sentences_loop_traverse split: sum.splits)
  have "zip sentence_pairs alignments = ps"
    unfolding sp al by (simp add: zip_map_fst_snd)
  then show ?thesis
    using c r ps sp al by (auto simp: traverse_Inr_iff)
qed

lemma py_int_error:
  "py_int lim s = Inl e \<Longrightarrow> e = ValueError_invalid_literal s \<or> (\<exists>n. e = ValueError_digit_limit n)"
  by (auto simp: py_int_def Let_def split: if_splits)

lemma py_int_error_limit:
  "py_int lim s = Inl e \<Longrightarrow>
     e = ValueError_invalid_literal s \<or> (\<exists>n. e = ValueError_digit_limit n \<and> 0 < lim \<and> lim < n)"
  by (auto simp: py_int_def Let_def split: if_splits)

lemma traverse_first_failure:
  "k < length xs \<Longrightarrow> \<forall>j<k. \<exists>y. f (xs ! j) = Inr y \<Longrightarrow> f (xs ! k) = Inl e \<Longrightarrow>
     traverse f xs = Inl e"
proof (induction xs arbitrary: k)
  case Nil
  then show ?case by simp
next
  case (Cons x xs)
  show ?case
  proof (cases k)
    case 0
    then show ?thesis using Cons.prems by simp
  next
    case (Suc k')
    have "\<exists>y. f x = Inr y"
      using Cons.prems(2) Suc by (auto dest: spec [of _ 0])
    moreover have "traverse f xs = Inl e"
    proof (rule Cons.IH)
      show "k' < length xs" using Cons.prems(1) Suc by simp
      show "\<forall>j<k'. \<exists>y. f (xs ! j) = Inr y"
        using Cons.prems(2) Suc by (auto dest: spec [of _ "Suc _"])
      show "f (xs ! k') = Inl e" using Cons.prems(3) Suc by simp
    qed
    ultimately show ?thesis by auto
  qed
qed

lemma text_tokens_error: "text_tokens x = Inl e \<Longrightarrow> e = AttributeError"
  by (auto simp: text_tokens_def split: option.splits)

lemma parse_pair_error:
  assumes "part \<in> set (str_split_sep (CHR ''-'') pair)" "py_int lim part = Inl e"
  shows "\<exists>p \<in> set (str_split_sep (CHR ''-'') pair). \<exists>e'. py_int lim p = Inl e'
      \<and> parse_pair lim pair = Inl e'
      \<and> (e' = ValueError_invalid_literal p \<or> (\<exists>n. e' = ValueError_digit_limit n))"
proof -
  obtain e' where e': "parse_pair lim pair = Inl e'"
    using assms traverse_fails unfolding parse_pair_def by metis
  then obtain p where "p \<in> set (str_split_sep (CHR ''-'') pair)" "py_int lim p = Inl e'"
    using traverse_error_from unfolding parse_pair_def by metis
  then show ?thesis
    using e' py_int_error by blast
qed

lemma parse_pair_error_shape:
  "parse_pair lim pair = Inl e \<Longrightarrow>
     (\<exists>lit. e = ValueError_invalid_literal lit) \<or> (\<exists>n. e = ValueError_digit_limit n)"
  using traverse_error_from [of "py_int lim" _ e] py_int_error unfolding parse_pair_def by blast

lemma field_alignments_error_shape:
  assumes "field_alignments lim x = Inl e"
  shows "(\<exists>lit. e = ValueError_invalid_literal lit) \<or> (\<exists>n. e = ValueError_digit_limit n)"
proof -
  obtain t where "traverse (parse_pair lim) (str_split (str_strip t)) = Inl e"
    using assms by (auto simp: field_alignments_def split: option.splits if_splits)
  then obtain pair where "parse_pair lim pair = Inl e"
    using traverse_error_from by metis
  then show ?thesis
    by (rule parse_pair_error_shape)
qed

lemma field_alignments_fails:
  assumes "elem_text el = Some t" "t \<noteq> []" "pair \<in> set (str_split (str_strip t))"
    "parse_pair lim pair = Inl e"
  shows "\<exists>e'. field_alignments lim (Some el) = Inl e'"
  using assms traverse_fails [of pair "str_split (str_strip t)" "parse_pair lim" e]
  by (simp add: field_alignments_def)

lemma sentence_fails:
  assumes "field = ''sure'' \<or> field = ''possible''"
    "field_alignments lim (find_child field s) = Inl e"
  shows "\<exists>e'. sentence lim s = Inl e'"
  using assms by (auto simp: sentence_def split: sum.splits)

lemma sentence_error_shape:
  assumes "sentence lim s = Inl e"
  shows "e = AttributeError \<or> (\<exists>lit. e = ValueError_invalid_literal lit)
    \<or> (\<exists>n. e = ValueError_digit_limit n)"
proof -
  consider "text_tokens (find_child ''english'' s) = Inl e"
    | "text_tokens (find_child ''czech'' s) = Inl e"
    | "field_alignments lim (find_child ''sure'' s) = Inl e"
    | "field_alignments lim (find_child ''possible'' s) = Inl e"
    using assms by (auto simp: sentence_def split: sum.splits)
  then show ?thesis
    using text_tokens_error field_alignments_error_shape by cases blast+
qed

lemma sentence_first_failure:
  assumes "field = ''sure'' \<or> field = ''possible''"
    and "field_alignments lim (find_child field s) = Inl e"
    and "\<exists>w. text_tokens (find_child ''english'' s) = Inr w"
    and "\<exists>w. text_tokens (find_child ''czech'' s) = Inr w"
    and "field = ''possible'' \<longrightarrow> (\<exists>a. field_alignments lim (find_child ''sure'' s) = Inr a)"
  shows "sentence lim s = Inl e"
  using assms by (auto simp: sentence_def)

lemma extract_sentences_error_shape:
  assumes "files ev filename = Some content"
    and "fromstring ev (str_replace ''&'' ''&amp;'' content) = Some root"
    and "extract_sentences ev filename = Inl e"
  shows "e = AttributeError \<or> (\<exists>lit. e = ValueError_invalid_literal lit)
    \<or> (\<exists>n. e = ValueError_digit_limit n)"
proof -
  have "traverse (sentence (int_max_str_digits ev)) (findall ''s'' root) = Inl e"
    using assms by (auto simp: extract_sentences_def sentences_loop_traverse split: sum.splits)
  then obtain s where "sentence (int_max_str_digits ev) s = Inl e"
    using traverse_error_from by metis
  then show ?thesis
    by (rule sentence_error_shape)
qed

lemma extract_sentences_first_failure:
  assumes "files ev filename = Some content"
    and "fromstring ev (str_replace ''&'' ''&amp;'' content) = Some root"
    and "i < length (findall ''s'' root)"
    and "\<forall>j<i. \<exists>p. sentence (int_max_str_digits ev) (findall ''s'' root ! j) = Inr p"
    and "sentence (int_max_str_digits ev) (findall ''s'' root ! i) = Inl e"
  shows "extract_sentences ev filename = Inl e"
  using assms(1,2) traverse_first_failure [OF assms(3,4,5)]
  by (simp add: extract_sentences_def sentences_loop_traverse)

lemma extract_sentences_fails:
  assumes "files ev filename = Some content"
    and "fromstring ev (str_replace ''&'' ''&amp;'' content) = Some root"
    and "s \<in> set (findall ''s'' root)"
    and "sentence (int_max_str_digits ev) s = Inl e"
  shows "\<exists>e'. extract_sentences ev filename = Inl e'"
  using assms traverse_fails [of s "findall ''s'' root" "sentence (int_max_str_digits ev)" e]
  by (auto simp: extract_sentences_def sentences_loop_traverse)

lemma extract_sentences_nth:
  assumes "extract_sentences ev filename = Inr (sentence_pairs, alignments)"
    and "files ev filename = Some content"
    and "fromstring ev (str_replace ''&'' ''&amp;'' content) = Some root"
  shows "length sentence_pairs = length (findall ''s'' root)"
    and "length alignments = length (findall ''s'' root)"
    and "i < length (findall ''s'' root) \<Longrightarrow>
           sentence (int_max_str_digits ev) (findall ''s'' root ! i)
             = Inr (sentence_pairs ! i, alignments ! i)"
proof -
  have all: "list_all2 (\<lambda>s p. sentence (int_max_str_digits ev) s = Inr p)
            (findall ''s'' root) (zip sentence_pairs alignments)"
    and len: "length sentence_pairs = length alignments"
    using extract_sentences_Inr [OF assms(1)] assms(2,3) by auto
  show n: "length sentence_pairs = length (findall ''s'' root)"
    using all len by (auto dest: list_all2_lengthD)
  show "length alignments = length (findall ''s'' root)"
    using n len by simp
  show "sentence (int_max_str_digits ev) (findall ''s'' root ! i)
              = Inr (sentence_pairs ! i, alignments ! i)"
    if "i < length (findall ''s'' root)"
    using list_all2_nthD [OF all that] that n len by simp
qed

subsection \<open>The pre-pass, integers and pair tokens\<close>


lemma is_digit_not_special:
  "is_digit c \<Longrightarrow> \<not> int_space c \<and> c \<noteq> CHR ''-'' \<and> c \<noteq> CHR ''+'' \<and> c \<noteq> CHR ''_''"
  by (auto simp: is_digit_def int_space_def)

lemma digit_value_nonneg: "is_digit c \<Longrightarrow> 0 \<le> digit_value c"
  by (auto simp: is_digit_def digit_value_def)

lemma foldl_digits_nonneg:
  "\<forall>c \<in> set ds. is_digit c \<Longrightarrow> 0 \<le> acc \<Longrightarrow>
     0 \<le> foldl (\<lambda>a c. 10 * a + digit_value c) acc ds"
  by (induction ds arbitrary: acc) (auto simp: digit_value_nonneg)

lemma digits_value_nonneg: "\<forall>c \<in> set ds. is_digit c \<Longrightarrow> 0 \<le> digits_value ds"
  by (simp add: digits_value_def foldl_digits_nonneg)

lemma underscores_ok_digits: "ds \<noteq> [] \<Longrightarrow> \<forall>c \<in> set ds. is_digit c \<Longrightarrow> underscores_ok ds"
  by (induction ds rule: underscores_ok.induct) (auto dest: is_digit_not_special)

lemma py_int_digits:
  assumes "ds \<noteq> []" "\<forall>c \<in> set ds. is_digit c"
  shows "py_int lim ds =
     (if 0 < lim \<and> lim < length ds then Inl (ValueError_digit_limit (length ds))
      else Inr (digits_value ds))"
proof -
  obtain c cs where ds: "ds = c # cs" using assms(1) by (cases ds) auto
  have c: "is_digit c" using assms(2) ds by simp
  have t: "dropWhile int_space ds = ds"
    using c ds is_digit_not_special by simp
  have num: "takeWhile (\<lambda>c. is_digit c \<or> c = CHR ''_'') ds = ds"
    and rest: "dropWhile (\<lambda>c. is_digit c \<or> c = CHR ''_'') ds = []"
    and f: "filter is_digit ds = ds"
    using assms(2) by simp_all
  have hd: "hd ds \<noteq> CHR ''-''" "hd ds \<noteq> CHR ''+''"
    using c ds is_digit_not_special by auto
  show ?thesis
    unfolding py_int_def t Let_def
    using hd assms(1) underscores_ok_digits [OF assms] by (simp add: num rest f)
qed

lemma hd_dropWhile_in: "dropWhile P s \<noteq> [] \<Longrightarrow> hd (dropWhile P s) \<in> set s"
  by (induction s) auto

lemma py_int_nonneg:
  assumes "CHR ''-'' \<notin> set s" "py_int lim s = Inr v"
  shows "0 \<le> v"
proof -
  let ?t = "dropWhile int_space s"
  have neg: "\<not> (?t \<noteq> [] \<and> hd ?t = CHR ''-'')"
    using assms(1) hd_dropWhile_in [of int_space s] by metis
  have "0 \<le> digits_value (filter is_digit xs)" for xs
    by (rule digits_value_nonneg) simp
  then show ?thesis
    using assms(2) neg unfolding py_int_def Let_def by (auto split: if_splits)
qed

lemma str_split_sep_parts: "p \<in> set (str_split_sep d s) \<Longrightarrow> d \<notin> set p"
proof (induction s arbitrary: p)
  case Nil
  then show ?case by simp
next
  case (Cons c cs)
  then show ?case
    by (cases "str_split_sep d cs") (auto split: if_splits)
qed

lemma str_split_sep_no_sep: "d \<notin> set b \<Longrightarrow> str_split_sep d b = [b]"
  by (induction b) auto

lemma str_split_sep_two:
  "d \<notin> set a \<Longrightarrow> d \<notin> set b \<Longrightarrow> str_split_sep d (a @ d # b) = [a, b]"
  by (induction a) (auto simp: str_split_sep_no_sep)

lemma traverse_all:
  "traverse f xs = Inr ys \<Longrightarrow> \<forall>x \<in> set xs. \<forall>y. f x = Inr y \<longrightarrow> P y \<Longrightarrow> \<forall>y \<in> set ys. P y"
  by (induction xs arbitrary: ys) (auto split: sum.splits)

lemma parse_pair_nonneg:
  assumes "parse_pair lim pair = Inr tuple"
  shows "\<forall>x \<in> set tuple. 0 \<le> x"
proof (rule traverse_all [of "py_int lim" "str_split_sep (CHR ''-'') pair"])
  show "traverse (py_int lim) (str_split_sep (CHR ''-'') pair) = Inr tuple"
    using assms by (simp add: parse_pair_def)
  show "\<forall>p \<in> set (str_split_sep (CHR ''-'') pair). \<forall>v. py_int lim p = Inr v \<longrightarrow> 0 \<le> v"
    using str_split_sep_parts py_int_nonneg by blast
qed

lemma parse_pair_decimal:
  assumes "a \<noteq> []" "b \<noteq> []" "\<forall>c \<in> set (a @ b). is_digit c"
    and "parse_pair lim (a @ ''-'' @ b) = Inr tuple"
  shows "tuple = [digits_value a, digits_value b]"
proof -
  have "CHR ''-'' \<notin> set a" "CHR ''-'' \<notin> set b"
    using assms(3) is_digit_not_special by auto
  then have parts: "str_split_sep (CHR ''-'') (a @ ''-'' @ b) = [a, b]"
    by (simp add: str_split_sep_two)
  have "\<forall>c \<in> set a. is_digit c" "\<forall>c \<in> set b. is_digit c"
    using assms(3) by auto
  then have "py_int lim a = (if 0 < lim \<and> lim < length a then Inl (ValueError_digit_limit (length a))
        else Inr (digits_value a))"
    and "py_int lim b = (if 0 < lim \<and> lim < length b then Inl (ValueError_digit_limit (length b))
        else Inr (digits_value b))"
    using assms(1,2) by (simp_all add: py_int_digits)
  then show ?thesis
    using assms(4) unfolding parse_pair_def parts by (auto split: if_splits)
qed

lemma sentence_Inr_fields:
  assumes "sentence lim s = Inr (p, a)" "field = ''sure'' \<or> field = ''possible''"
  shows "field_alignments lim (find_child field s) = Inr (alignment_field field a)"
  using assms by (auto simp: sentence_def alignment_field_def split: sum.splits)

lemma sentence_no_children:
  "children s = [] \<Longrightarrow>
     sentence lim s = Inr (\<lparr>source = [], target = []\<rparr>, \<lparr>sure = [], possible = []\<rparr>)"
  by (simp add: sentence_def find_child_def findall_def text_tokens_def field_alignments_def)

text \<open>The equations that run \<open>extract_sentences\<close> on a given file.\<close>

lemmas run_extract =
  extract_sentences_def corpus_env_def findall_def find_child_def sentence_def text_tokens_def
  field_alignments_def parse_pair_def py_int_def int_space_def is_digit_def digits_value_def
  digit_value_def str_split_def str_strip_def isspace_def Let_def

subsection \<open>Text fields\<close>

text \<open>
  C1. A missing text field gives the empty token list, but a text field that is present
  and empty makes \<open>extract_sentences\<close> fail: such an element has no text, and lines 62
  and 63 call \<open>strip\<close> on it (\<open>AttributeError\<close>). This holds for any sentence whose
  first \<open>english\<close> child is empty, for a sentence with an empty \<open>czech\<close> child alone,
  and so for the file
  \<open><sentences><s><english></english><czech>kocka</czech></s></sentences>\<close>. The
  alignment fields are guarded against the same case (lines 68 and 70) and give the
  empty list.
\<close>

theorem extract_sentences_empty_text_field_raises:
  "text_tokens None = Inr []
   \<and> sentence lim (Element t x (Element ''english'' None cs # rest)) = Inl AttributeError
   \<and> sentence lim (Element t x [Element ''czech'' None cs]) = Inl AttributeError
   \<and> field_alignments lim (Some (Element ''sure'' None cs)) = Inr []
   \<and> extract_sentences
       (corpus_env ''corpus.xml''
          ''<sentences><s><english></english><czech>kocka</czech></s></sentences>''
          ''<sentences><s><english></english><czech>kocka</czech></s></sentences>''
          (Element ''sentences'' None
             [Element ''s'' None
                [Element ''english'' None [], Element ''czech'' (Some ''kocka'') []]]))
       ''corpus.xml'' = Inl AttributeError"
  by (simp add: run_extract)

subsection \<open>The ampersand pre-pass\<close>




subsection \<open>Alignment fields\<close>

text \<open>
  Pair tokens with three parts or one are stored as they are, and the failure on
  \<open>x-1\<close> is the \<open>ValueError\<close> of \<open>int\<close> for \<open>x\<close>, the same in the first sentence and
  in the second.
\<close>

theorem extract_sentences_accepts_odd_pair_tokens:
  "extract_sentences
     (corpus_env ''corpus.xml''
        ''<sentences><s><english>a</english><czech>b</czech><sure>1-2-3 5</sure></s></sentences>''
        ''<sentences><s><english>a</english><czech>b</czech><sure>1-2-3 5</sure></s></sentences>''
        (Element ''sentences'' None
           [Element ''s'' None [Element ''english'' (Some ''a'') [], Element ''czech'' (Some ''b'') [],
                                Element ''sure'' (Some ''1-2-3 5'') []]]))
     ''corpus.xml''
     = Inr ([\<lparr>source = [''a''], target = [''b'']\<rparr>], [\<lparr>sure = [[1, 2, 3], [5]], possible = []\<rparr>])
   \<and> extract_sentences
     (corpus_env ''corpus.xml''
        ''<sentences><s><english>a</english><czech>b</czech><sure>x-1</sure></s></sentences>''
        ''<sentences><s><english>a</english><czech>b</czech><sure>x-1</sure></s></sentences>''
        (Element ''sentences'' None
           [Element ''s'' None [Element ''english'' (Some ''a'') [], Element ''czech'' (Some ''b'') [],
                                Element ''sure'' (Some ''x-1'') []]]))
     ''corpus.xml''
     = Inl (ValueError_invalid_literal ''x'')
   \<and> extract_sentences
     (corpus_env ''corpus.xml''
        ''<sentences><s><english>a</english><czech>b</czech></s><s><english>a</english><czech>b</czech><sure>x-1</sure></s></sentences>''
        ''<sentences><s><english>a</english><czech>b</czech></s><s><english>a</english><czech>b</czech><sure>x-1</sure></s></sentences>''
        (Element ''sentences'' None
           [Element ''s'' None [Element ''english'' (Some ''a'') [], Element ''czech'' (Some ''b'') []],
            Element ''s'' None [Element ''english'' (Some ''a'') [], Element ''czech'' (Some ''b'') [],
                                Element ''sure'' (Some ''x-1'') []]]))
     ''corpus.xml''
     = Inl (ValueError_invalid_literal ''x'')"
  by (simp add: run_extract)

text \<open>
  C3, as the code has it. Let a pair token of a non-empty \<open>sure\<close> or \<open>possible\<close>
  field have a dash-separated part that \<open>int\<close> rejects. Then \<open>extract_sentences\<close>
  fails, so the token is never stored; its exception is a \<open>ValueError\<close> of \<open>int\<close> or
  the \<open>AttributeError\<close> of an empty text field (there is no \<open>FormatError\<close>). When the
  rejected part is the first step that fails in document order
  (the sentences before it, the text fields of its sentence, the \<open>sure\<close> field before a
  \<open>possible\<close> field, the tokens before it and the parts before it all succeed), the
  exception is the \<open>ValueError\<close> of \<open>int\<close> for this very part: it carries the part, or
  the number of its digits when that exceeds the digit limit, and neither the whole token
  nor the sentence index. How many parts a token has is not part of this statement.
\<close>

theorem extract_sentences_rejects_non_integer_part:
  assumes "files ev filename = Some content"
    and "fromstring ev (str_replace ''&'' ''&amp;'' content) = Some root"
    and "i < length (findall ''s'' root)"
    and "field = ''sure'' \<or> field = ''possible''"
    and "find_child field (findall ''s'' root ! i) = Some el"
    and "elem_text el = Some t" and "t \<noteq> []"
    and "k < length (str_split (str_strip t))"
    and "m < length (str_split_sep (CHR ''-'') (str_split (str_strip t) ! k))"
    and "py_int (int_max_str_digits ev)
           (str_split_sep (CHR ''-'') (str_split (str_strip t) ! k) ! m) = Inl e"
  shows "(\<exists>e'. extract_sentences ev filename = Inl e'
            \<and> (e' = AttributeError \<or> (\<exists>lit. e' = ValueError_invalid_literal lit)
                 \<or> (\<exists>n. e' = ValueError_digit_limit n)))
    \<and> ((\<forall>j<i. \<exists>p. sentence (int_max_str_digits ev) (findall ''s'' root ! j) = Inr p)
        \<and> (\<exists>w. text_tokens (find_child ''english'' (findall ''s'' root ! i)) = Inr w)
        \<and> (\<exists>w. text_tokens (find_child ''czech'' (findall ''s'' root ! i)) = Inr w)
        \<and> (field = ''possible'' \<longrightarrow>
              (\<exists>a. field_alignments (int_max_str_digits ev)
                      (find_child ''sure'' (findall ''s'' root ! i)) = Inr a))
        \<and> (\<forall>j<k. \<exists>tuple. parse_pair (int_max_str_digits ev) (str_split (str_strip t) ! j)
                                 = Inr tuple)
        \<and> (\<forall>j<m. \<exists>v. py_int (int_max_str_digits ev)
                           (str_split_sep (CHR ''-'') (str_split (str_strip t) ! k) ! j) = Inr v)
       \<longrightarrow> extract_sentences ev filename = Inl e
           \<and> (e = ValueError_invalid_literal
                      (str_split_sep (CHR ''-'') (str_split (str_strip t) ! k) ! m)
                \<or> (\<exists>n. e = ValueError_digit_limit n
                        \<and> 0 < int_max_str_digits ev \<and> int_max_str_digits ev < n)))"
proof -
  let ?lim = "int_max_str_digits ev"
  let ?s = "findall ''s'' root ! i"
  let ?toks = "str_split (str_strip t)"
  let ?parts = "str_split_sep (CHR ''-'') (?toks ! k)"
  have in_parts: "?parts ! m \<in> set ?parts" and in_toks: "?toks ! k \<in> set ?toks"
    and in_ss: "?s \<in> set (findall ''s'' root)"
    using assms(3,8,9) by simp_all
  obtain e1 where e1: "parse_pair ?lim (?toks ! k) = Inl e1"
    using parse_pair_error [OF in_parts assms(10)] by blast
  obtain e2 where e2: "field_alignments ?lim (Some el) = Inl e2"
    using field_alignments_fails [OF assms(6,7) in_toks e1] by blast
  then obtain e3 where "sentence ?lim ?s = Inl e3"
    using sentence_fails [OF assms(4)] assms(5) by metis
  then obtain e' where e': "extract_sentences ev filename = Inl e'"
    using extract_sentences_fails [OF assms(1,2) in_ss] by blast
  have general: "\<exists>e'. extract_sentences ev filename = Inl e'
            \<and> (e' = AttributeError \<or> (\<exists>lit. e' = ValueError_invalid_literal lit)
                 \<or> (\<exists>n. e' = ValueError_digit_limit n))"
    using e' extract_sentences_error_shape [OF assms(1,2) e'] by blast
  have first: "extract_sentences ev filename = Inl e"
    if before: "\<forall>j<i. \<exists>p. sentence ?lim (findall ''s'' root ! j) = Inr p"
      and english: "\<exists>w. text_tokens (find_child ''english'' ?s) = Inr w"
      and czech: "\<exists>w. text_tokens (find_child ''czech'' ?s) = Inr w"
      and sure_ok: "field = ''possible'' \<longrightarrow>
              (\<exists>a. field_alignments ?lim (find_child ''sure'' ?s) = Inr a)"
      and toks_ok: "\<forall>j<k. \<exists>tuple. parse_pair ?lim (?toks ! j) = Inr tuple"
      and parts_ok: "\<forall>j<m. \<exists>v. py_int ?lim (?parts ! j) = Inr v"
  proof -
    have "parse_pair ?lim (?toks ! k) = Inl e"
      unfolding parse_pair_def using assms(9) parts_ok assms(10) by (rule traverse_first_failure)
    with assms(8) toks_ok have "traverse (parse_pair ?lim) ?toks = Inl e"
      by (rule traverse_first_failure)
    then have "field_alignments ?lim (find_child field ?s) = Inl e"
      using assms(5,6,7) by (simp add: field_alignments_def)
    with assms(4) have "sentence ?lim ?s = Inl e"
      using english czech sure_ok by (rule sentence_first_failure)
    with assms(1,2,3) before show ?thesis
      by (rule extract_sentences_first_failure)
  qed
  have shape: "e = ValueError_invalid_literal (?parts ! m)
      \<or> (\<exists>n. e = ValueError_digit_limit n \<and> 0 < ?lim \<and> ?lim < n)"
    using assms(10) by (rule py_int_error_limit)
  show ?thesis
    using general first shape by blast
qed

theorem extract_sentences_rejects_non_integer_part_witness:
  "py_int 4300 ''x'' = Inl (ValueError_invalid_literal ''x'')
   \<and> str_split_sep (CHR ''-'') (str_split (str_strip ''1-1 2-x'') ! 1) ! 1 = ''x''
   \<and> extract_sentences
     (corpus_env ''corpus.xml''
        ''<sentences><s><english>a</english><czech>b</czech><sure>1-1</sure></s><s><english>c</english><czech>d</czech><sure>1-1</sure><possible>1-1 2-x</possible></s></sentences>''
        ''<sentences><s><english>a</english><czech>b</czech><sure>1-1</sure></s><s><english>c</english><czech>d</czech><sure>1-1</sure><possible>1-1 2-x</possible></s></sentences>''
        (Element ''sentences'' None
           [Element ''s'' None [Element ''english'' (Some ''a'') [], Element ''czech'' (Some ''b'') [],
                                Element ''sure'' (Some ''1-1'') []],
            Element ''s'' None [Element ''english'' (Some ''c'') [], Element ''czech'' (Some ''d'') [],
                                Element ''sure'' (Some ''1-1'') [],
                                Element ''possible'' (Some ''1-1 2-x'') []]]))
     ''corpus.xml''
     = Inl (ValueError_invalid_literal ''x'')"
proof -
  let ?content = "''<sentences><s><english>a</english><czech>b</czech><sure>1-1</sure></s><s><english>c</english><czech>d</czech><sure>1-1</sure><possible>1-1 2-x</possible></s></sentences>''"
  let ?el = "Element ''possible'' (Some ''1-1 2-x'') []"
  let ?s0 = "Element ''s'' None [Element ''english'' (Some ''a'') [], Element ''czech'' (Some ''b'') [],
                                Element ''sure'' (Some ''1-1'') []]"
  let ?s1 = "Element ''s'' None [Element ''english'' (Some ''c'') [], Element ''czech'' (Some ''d'') [],
                                Element ''sure'' (Some ''1-1'') [], ?el]"
  let ?root = "Element ''sentences'' None [?s0, ?s1]"
  let ?ev = "corpus_env ''corpus.xml'' ?content ?content ?root"
  have lim: "int_max_str_digits ?ev = 4300"
    by (simp add: corpus_env_def)
  have ss: "findall ''s'' ?root = [?s0, ?s1]"
    by (simp add: findall_def)
  have toks: "str_split (str_strip ''1-1 2-x'') = [''1-1'', ''2-x'']"
    by (simp add: str_split_def str_strip_def isspace_def)
  have parts: "str_split_sep (CHR ''-'') ''2-x'' = [''2'', ''x'']"
    by simp
  have bad: "py_int 4300 ''x'' = Inl (ValueError_invalid_literal ''x'')"
    by (simp add: py_int_def int_space_def is_digit_def)
  have h1: "files ?ev ''corpus.xml'' = Some ?content"
    by (simp add: corpus_env_def)
  have h2: "fromstring ?ev (str_replace ''&'' ''&amp;'' ?content) = Some ?root"
    by (simp add: corpus_env_def)
  have h3: "1 < length (findall ''s'' ?root)"
    by (simp add: ss)
  have h4: "''possible'' = ''sure'' \<or> ''possible'' = ''possible''"
    by simp
  have h5: "find_child ''possible'' (findall ''s'' ?root ! 1) = Some ?el"
    by (simp add: ss find_child_def findall_def)
  have h6: "elem_text ?el = Some ''1-1 2-x''"
    by simp
  have h7: "''1-1 2-x'' \<noteq> []"
    by simp
  have h8: "1 < length (str_split (str_strip ''1-1 2-x''))"
    by (simp add: toks)
  have h9: "1 < length (str_split_sep (CHR ''-'') (str_split (str_strip ''1-1 2-x'') ! 1))"
    by (simp add: toks)
  have h10: "py_int (int_max_str_digits ?ev)
           (str_split_sep (CHR ''-'') (str_split (str_strip ''1-1 2-x'') ! 1) ! 1)
           = Inl (ValueError_invalid_literal ''x'')"
    by (simp add: lim toks bad)
  have p1: "\<forall>j<1. \<exists>p. sentence (int_max_str_digits ?ev) (findall ''s'' ?root ! j) = Inr p"
    by (simp add: ss lim sentence_def find_child_def findall_def text_tokens_def
        field_alignments_def parse_pair_def py_int_def int_space_def is_digit_def str_split_def
        str_strip_def isspace_def)
  have p2: "\<exists>w. text_tokens (find_child ''english'' (findall ''s'' ?root ! 1)) = Inr w"
    by (simp add: ss find_child_def findall_def text_tokens_def)
  have p3: "\<exists>w. text_tokens (find_child ''czech'' (findall ''s'' ?root ! 1)) = Inr w"
    by (simp add: ss find_child_def findall_def text_tokens_def)
  have p4: "''possible'' = ''possible'' \<longrightarrow>
      (\<exists>a. field_alignments (int_max_str_digits ?ev)
         (find_child ''sure'' (findall ''s'' ?root ! 1)) = Inr a)"
    by (simp add: ss lim find_child_def findall_def field_alignments_def parse_pair_def
        py_int_def int_space_def is_digit_def str_split_def str_strip_def isspace_def)
  have p5: "\<forall>j<1. \<exists>tuple. parse_pair (int_max_str_digits ?ev)
        (str_split (str_strip ''1-1 2-x'') ! j) = Inr tuple"
    by (simp add: toks lim parse_pair_def py_int_def int_space_def is_digit_def)
  have p6: "\<forall>j<1. \<exists>v. py_int (int_max_str_digits ?ev)
        (str_split_sep (CHR ''-'') (str_split (str_strip ''1-1 2-x'') ! 1) ! j) = Inr v"
    by (simp add: toks lim py_int_def int_space_def is_digit_def)
  have "extract_sentences ?ev ''corpus.xml'' = Inl (ValueError_invalid_literal ''x'')"
    using extract_sentences_rejects_non_integer_part [OF h1 h2 h3 h4 h5 h6 h7 h8 h9 h10]
      p1 p2 p3 p4 p5 p6
    by blast
  then show ?thesis
    using bad toks by simp
qed

text \<open>
  C6. When \<open>extract_sentences\<close> returns, the file was read and parsed, both lists
  have one entry per \<open>s\<close> child of the root, and the \<open>i\<close>-th entries are what the loop
  body makes of the \<open>i\<close>-th \<open>s\<close> child; an \<open>s\<close> element without fields yields the empty
  pair and the empty alignment.
\<close>

theorem extract_sentences_one_pair_per_sentence:
  assumes "extract_sentences ev filename = Inr (sentence_pairs, alignments)"
  shows "\<exists>content root. files ev filename = Some content
      \<and> fromstring ev (str_replace ''&'' ''&amp;'' content) = Some root
      \<and> length sentence_pairs = length (findall ''s'' root)
      \<and> length alignments = length (findall ''s'' root)
      \<and> (\<forall>i < length (findall ''s'' root).
            sentence (int_max_str_digits ev) (findall ''s'' root ! i)
              = Inr (sentence_pairs ! i, alignments ! i)
            \<and> (children (findall ''s'' root ! i) = [] \<longrightarrow>
                 sentence_pairs ! i = \<lparr>source = [], target = []\<rparr>
                 \<and> alignments ! i = \<lparr>sure = [], possible = []\<rparr>))"
proof -
  obtain content root where c: "files ev filename = Some content"
    and r: "fromstring ev (str_replace ''&'' ''&amp;'' content) = Some root"
    using extract_sentences_Inr [OF assms] by blast
  note nth = extract_sentences_nth [OF assms c r]
  have "sentence_pairs ! i = \<lparr>source = [], target = []\<rparr>
        \<and> alignments ! i = \<lparr>sure = [], possible = []\<rparr>"
    if "i < length (findall ''s'' root)" "children (findall ''s'' root ! i) = []" for i
    using nth(3) [OF that(1)] sentence_no_children [OF that(2), of "int_max_str_digits ev"] by simp
  then show ?thesis
    using c r nth by auto
qed

theorem extract_sentences_one_pair_per_sentence_witness:
  "extract_sentences
     (corpus_env ''corpus.xml''
        ''<sentences><s><english>a b</english><czech>c</czech><sure>1-1</sure></s><s/><s><english> </english><czech> </czech><sure></sure><possible></possible></s></sentences>''
        ''<sentences><s><english>a b</english><czech>c</czech><sure>1-1</sure></s><s/><s><english> </english><czech> </czech><sure></sure><possible></possible></s></sentences>''
        (Element ''sentences'' None
           [Element ''s'' None [Element ''english'' (Some ''a b'') [], Element ''czech'' (Some ''c'') [],
                                Element ''sure'' (Some ''1-1'') []],
            Element ''s'' None [],
            Element ''s'' None [Element ''english'' (Some '' '') [], Element ''czech'' (Some '' '') [],
                                Element ''sure'' None [], Element ''possible'' None []]]))
     ''corpus.xml''
     = Inr ([\<lparr>source = [''a'', ''b''], target = [''c'']\<rparr>, \<lparr>source = [], target = []\<rparr>,
             \<lparr>source = [], target = []\<rparr>],
            [\<lparr>sure = [[1, 1]], possible = []\<rparr>, \<lparr>sure = [], possible = []\<rparr>,
             \<lparr>sure = [], possible = []\<rparr>])
   \<and> length [\<lparr>source = [''a'', ''b''], target = [''c'']\<rparr>, \<lparr>source = [], target = []\<rparr>,
             \<lparr>source = [], target = []\<rparr>]
     = length [\<lparr>sure = [[1, 1]], possible = []\<rparr>, \<lparr>sure = [], possible = []\<rparr>,
             \<lparr>sure = [], possible = []\<rparr>]"
proof -
  let ?content = "''<sentences><s><english>a b</english><czech>c</czech><sure>1-1</sure></s><s/><s><english> </english><czech> </czech><sure></sure><possible></possible></s></sentences>''"
  let ?root = "Element ''sentences'' None
           [Element ''s'' None [Element ''english'' (Some ''a b'') [], Element ''czech'' (Some ''c'') [],
                                Element ''sure'' (Some ''1-1'') []],
            Element ''s'' None [],
            Element ''s'' None [Element ''english'' (Some '' '') [], Element ''czech'' (Some '' '') [],
                                Element ''sure'' None [], Element ''possible'' None []]]"
  have e: "extract_sentences (corpus_env ''corpus.xml'' ?content ?content ?root) ''corpus.xml''
     = Inr ([\<lparr>source = [''a'', ''b''], target = [''c'']\<rparr>, \<lparr>source = [], target = []\<rparr>,
             \<lparr>source = [], target = []\<rparr>],
            [\<lparr>sure = [[1, 1]], possible = []\<rparr>, \<lparr>sure = [], possible = []\<rparr>,
             \<lparr>sure = [], possible = []\<rparr>])"
    by (simp add: run_extract)
  show ?thesis
    using e extract_sentences_one_pair_per_sentence [OF e] by simp
qed

text \<open>
  The token \<open>0-0\<close> is accepted and stored as \<open>(0, 0)\<close>.
\<close>

theorem extract_sentences_accepts_position_zero:
  "extract_sentences
     (corpus_env ''corpus.xml''
        ''<sentences><s><english>a</english><czech>b</czech><sure>0-0</sure></s></sentences>''
        ''<sentences><s><english>a</english><czech>b</czech><sure>0-0</sure></s></sentences>''
        (Element ''sentences'' None
           [Element ''s'' None [Element ''english'' (Some ''a'') [], Element ''czech'' (Some ''b'') [],
                                Element ''sure'' (Some ''0-0'') []]]))
     ''corpus.xml''
     = Inr ([\<lparr>source = [''a''], target = [''b'']\<rparr>], [\<lparr>sure = [[0, 0]], possible = []\<rparr>])"
  by (simp add: run_extract)

text \<open>
  C8, as the code has it. In an accepted file, the \<open>k\<close>-th tuple of a non-empty
  \<open>sure\<close> or \<open>possible\<close> field is what \<open>tuple(map(int, ...))\<close> makes of its \<open>k\<close>-th
  token; its components are not negative; and for a token made of two decimal numerals
  joined by a dash it is the pair of their values. That the values are at least 1 is not
  checked.
\<close>

theorem extract_sentences_pair_token_value:
  assumes "extract_sentences ev filename = Inr (sentence_pairs, alignments)"
    and "files ev filename = Some content"
    and "fromstring ev (str_replace ''&'' ''&amp;'' content) = Some root"
    and "i < length (findall ''s'' root)"
    and "field = ''sure'' \<or> field = ''possible''"
    and "find_child field (findall ''s'' root ! i) = Some el"
    and "elem_text el = Some t" and "t \<noteq> []"
    and "k < length (str_split (str_strip t))"
  shows "length (alignment_field field (alignments ! i)) = length (str_split (str_strip t))
    \<and> parse_pair (int_max_str_digits ev) (str_split (str_strip t) ! k)
        = Inr (alignment_field field (alignments ! i) ! k)
    \<and> (\<forall>x \<in> set (alignment_field field (alignments ! i) ! k). 0 \<le> x)
    \<and> (\<forall>a b. str_split (str_strip t) ! k = a @ ''-'' @ b \<and> a \<noteq> [] \<and> b \<noteq> []
            \<and> (\<forall>c \<in> set (a @ b). is_digit c) \<longrightarrow>
          alignment_field field (alignments ! i) ! k = [digits_value a, digits_value b]
          \<and> 0 \<le> digits_value a \<and> 0 \<le> digits_value b)"
proof -
  let ?lim = "int_max_str_digits ev"
  let ?toks = "str_split (str_strip t)"
  let ?tuples = "alignment_field field (alignments ! i)"
  have "sentence ?lim (findall ''s'' root ! i) = Inr (sentence_pairs ! i, alignments ! i)"
    using assms(4) by (rule extract_sentences_nth(3) [OF assms(1,2,3)])
  then have "field_alignments ?lim (find_child field (findall ''s'' root ! i)) = Inr ?tuples"
    using assms(5) by (rule sentence_Inr_fields)
  then have "traverse (parse_pair ?lim) ?toks = Inr ?tuples"
    using assms(6,7,8) by (simp add: field_alignments_def)
  then have all: "list_all2 (\<lambda>pair tuple. parse_pair ?lim pair = Inr tuple) ?toks ?tuples"
    by (simp add: traverse_Inr_iff)
  then have len: "length ?tuples = length ?toks"
    by (auto dest: list_all2_lengthD)
  have pk: "parse_pair ?lim (?toks ! k) = Inr (?tuples ! k)"
    using list_all2_nthD [OF all assms(9)] .
  have nonneg: "\<forall>x \<in> set (?tuples ! k). 0 \<le> x"
    using pk by (rule parse_pair_nonneg)
  have "?tuples ! k = [digits_value a, digits_value b]
          \<and> 0 \<le> digits_value a \<and> 0 \<le> digits_value b"
    if "?toks ! k = a @ ''-'' @ b" "a \<noteq> []" "b \<noteq> []" "\<forall>c \<in> set (a @ b). is_digit c" for a b
  proof -
    have "parse_pair ?lim (a @ ''-'' @ b) = Inr (?tuples ! k)"
      using pk that(1) by simp
    then have "?tuples ! k = [digits_value a, digits_value b]"
      by (rule parse_pair_decimal [OF that(2,3,4)])
    then show ?thesis
      using that(4) by (simp add: digits_value_nonneg)
  qed
  then show ?thesis
    using len pk nonneg by blast
qed

theorem extract_sentences_pair_token_value_witness:
  "extract_sentences
     (corpus_env ''corpus.xml''
        ''<sentences><s><english>the cat sat</english><czech>kocka sedela</czech><sure>1-1 3-2</sure><possible>12-03</possible></s></sentences>''
        ''<sentences><s><english>the cat sat</english><czech>kocka sedela</czech><sure>1-1 3-2</sure><possible>12-03</possible></s></sentences>''
        (Element ''sentences'' None
           [Element ''s'' None [Element ''english'' (Some ''the cat sat'') [],
                                Element ''czech'' (Some ''kocka sedela'') [],
                                Element ''sure'' (Some ''1-1 3-2'') [],
                                Element ''possible'' (Some ''12-03'') []]]))
     ''corpus.xml''
     = Inr ([\<lparr>source = [''the'', ''cat'', ''sat''], target = [''kocka'', ''sedela'']\<rparr>],
            [\<lparr>sure = [[1, 1], [3, 2]], possible = [[12, 3]]\<rparr>])
   \<and> str_split (str_strip ''12-03'') ! 0 = ''12'' @ ''-'' @ ''03''
   \<and> parse_pair 4300 ''12-03'' = Inr [12, 3]
   \<and> digits_value ''12'' = 12 \<and> digits_value ''03'' = 3"
proof -
  let ?content = "''<sentences><s><english>the cat sat</english><czech>kocka sedela</czech><sure>1-1 3-2</sure><possible>12-03</possible></s></sentences>''"
  let ?el = "Element ''possible'' (Some ''12-03'') []"
  let ?s = "Element ''s'' None [Element ''english'' (Some ''the cat sat'') [],
                                Element ''czech'' (Some ''kocka sedela'') [],
                                Element ''sure'' (Some ''1-1 3-2'') [], ?el]"
  let ?root = "Element ''sentences'' None [?s]"
  let ?ev = "corpus_env ''corpus.xml'' ?content ?content ?root"
  let ?sps = "[\<lparr>source = [''the'', ''cat'', ''sat''], target = [''kocka'', ''sedela'']\<rparr>]"
  let ?als = "[\<lparr>sure = [[1, 1], [3, 2]], possible = [[12, 3]]\<rparr>]"
  have h1: "extract_sentences ?ev ''corpus.xml'' = Inr (?sps, ?als)"
    by (simp add: run_extract)
  have h2: "files ?ev ''corpus.xml'' = Some ?content"
    by (simp add: corpus_env_def)
  have h3: "fromstring ?ev (str_replace ''&'' ''&amp;'' ?content) = Some ?root"
    by (simp add: corpus_env_def)
  have h4: "0 < length (findall ''s'' ?root)"
    by (simp add: findall_def)
  have h5: "''possible'' = ''sure'' \<or> ''possible'' = ''possible''"
    by simp
  have h6: "find_child ''possible'' (findall ''s'' ?root ! 0) = Some ?el"
    by (simp add: find_child_def findall_def)
  have h7: "elem_text ?el = Some ''12-03''"
    by simp
  have h8: "''12-03'' \<noteq> []"
    by simp
  have toks: "str_split (str_strip ''12-03'') = [''12-03'']"
    by (simp add: str_split_def str_strip_def isspace_def)
  have h9: "0 < length (str_split (str_strip ''12-03''))"
    by (simp add: toks)
  have lim: "int_max_str_digits ?ev = 4300"
    by (simp add: corpus_env_def)
  have dv: "digits_value ''12'' = 12 \<and> digits_value ''03'' = 3"
    by (simp add: digits_value_def digit_value_def)
  have "parse_pair (int_max_str_digits ?ev) (str_split (str_strip ''12-03'') ! 0)
        = Inr (alignment_field ''possible'' (?als ! 0) ! 0)"
    using extract_sentences_pair_token_value [OF h1 h2 h3 h4 h5 h6 h7 h8 h9] by blast
  then have "parse_pair 4300 ''12-03'' = Inr [12, 3]"
    by (simp add: lim toks alignment_field_def)
  then show ?thesis
    using h1 toks dv by simp
qed

section \<open>tokenize\_sents: the pairs kept and their indices\<close>

lemma indices_filter_map:
  "indices d tokens = map (\<lambda>t. the (d t)) (filter (\<lambda>t. d t \<noteq> None) tokens)"
  by (induction tokens) (auto split: option.splits)

lemma indices_empty_iff: "indices d tokens = [] \<longleftrightarrow> filter (\<lambda>t. t \<in> dom d) tokens = []"
  by (simp add: indices_filter_map dom_def)



lemma tokenize_loop_filter:
  "tokenize_loop pairs sd td acc =
     acc @ map (tokenized sd td)
       (filter (\<lambda>p. indices sd (source p) \<noteq> [] \<and> indices td (target p) \<noteq> []) pairs)"
  by (induction pairs arbitrary: acc) (auto simp: Let_def tokenized_def)

lemma array_len_np_array: "array_len (np_array xs) = length xs"
  by (simp add: array_len_def np_array_def)


lemma indices_empty_dict: "indices Map.empty tokens = []"
  by (induction tokens) auto

lemma tokenize_sents_empty_dicts: "tokenize_sents sentence_pairs Map.empty Map.empty = []"
  by (simp add: tokenize_sents_def tokenize_loop_filter indices_empty_dict)

text \<open>
  C4. Every pair that \<open>tokenize_sents\<close> returns has a non-empty source side and a
  non-empty target side; it returns at most as many pairs as it is given; and the pairs
  it returns are, in order, those of the input pairs in which some source token is a key
  of \<open>source_dict\<close> and some target token is a key of \<open>target_dict\<close>: the pairs
  dropped are exactly those that the vocabulary filter empties on one side.
\<close>

theorem tokenize_sents_drops_emptied:
  "(\<forall>p \<in> set (tokenize_sents sentence_pairs source_dict target_dict).
      array_len (source_tokens p) \<noteq> 0 \<and> array_len (target_tokens p) \<noteq> 0)
   \<and> length (tokenize_sents sentence_pairs source_dict target_dict) \<le> length sentence_pairs
   \<and> tokenize_sents sentence_pairs source_dict target_dict =
       map (\<lambda>p. \<lparr>source_tokens = np_array (indices source_dict (source p)),
                 target_tokens = np_array (indices target_dict (target p))\<rparr>)
         (filter (\<lambda>p. filter (\<lambda>t. t \<in> dom source_dict) (source p) \<noteq> []
                     \<and> filter (\<lambda>t. t \<in> dom target_dict) (target p) \<noteq> []) sentence_pairs)"
  by (auto simp: tokenize_sents_def tokenize_loop_filter tokenized_def indices_empty_iff
      array_len_np_array cong: map_cong)

theorem tokenize_sents_drops_emptied_witness:
  "tokenize_sents
     [\<lparr>source = [''the'', ''cat''], target = [''kocka'']\<rparr>,
      \<lparr>source = [''the'', ''dog''], target = [''pes'']\<rparr>]
     [''cat'' \<mapsto> 0, ''the'' \<mapsto> 1] [''kocka'' \<mapsto> 0]
     = [\<lparr>source_tokens = IntArray [1, 0], target_tokens = IntArray [0]\<rparr>]
   \<and> array_len (source_tokens \<lparr>source_tokens = IntArray [1, 0], target_tokens = IntArray [0]\<rparr>) \<noteq> 0
   \<and> array_len (target_tokens \<lparr>source_tokens = IntArray [1, 0], target_tokens = IntArray [0]\<rparr>) \<noteq> 0"
proof -
  have e: "tokenize_sents
     [\<lparr>source = [''the'', ''cat''], target = [''kocka'']\<rparr>,
      \<lparr>source = [''the'', ''dog''], target = [''pes'']\<rparr>]
     [''cat'' \<mapsto> 0, ''the'' \<mapsto> 1] [''kocka'' \<mapsto> 0]
     = [\<lparr>source_tokens = IntArray [1, 0], target_tokens = IntArray [0]\<rparr>]"
    by (simp add: tokenize_sents_def np_array_def)
  show ?thesis
    using e tokenize_sents_drops_emptied
      [of "[\<lparr>source = [''the'', ''cat''], target = [''kocka'']\<rparr>,
            \<lparr>source = [''the'', ''dog''], target = [''pes'']\<rparr>]"
          "[''cat'' \<mapsto> 0, ''the'' \<mapsto> 1]" "[''kocka'' \<mapsto> 0]"]
    by (simp add: array_len_def)
qed




section \<open>get\_token\_to\_index: counting, sorting, numbering\<close>

lemma first_occurrence_Cons:
  "first_occurrence (y # ys) x = (if y = x then 0 else Suc (first_occurrence ys x))"
  by (simp add: first_occurrence_def)

lemma first_occurrence_less: "x \<in> set xs \<Longrightarrow> first_occurrence xs x < length xs"
  by (induction xs) (auto simp: first_occurrence_Cons)

lemma first_occurrence_nth: "x \<in> set xs \<Longrightarrow> xs ! first_occurrence xs x = x"
  by (induction xs) (auto simp: first_occurrence_Cons)

lemma first_occurrence_distinct_nth:
  "distinct xs \<Longrightarrow> i < length xs \<Longrightarrow> first_occurrence xs (xs ! i) = i"
  by (induction xs arbitrary: i) (auto simp: first_occurrence_Cons nth_Cons split: nat.splits)

lemma first_occurrence_snoc:
  "first_occurrence (xs @ [y]) x =
     (if x \<in> set xs then first_occurrence xs x else if y = x then length xs else Suc (length xs))"
  by (induction xs) (auto simp: first_occurrence_Cons first_occurrence_def)

lemma Counter_snoc: "Counter (xs @ [x]) = counter_add x (Counter xs)"
  by (simp add: Counter_def)

lemma Counter_Nil: "Counter [] = []"
  by (simp add: Counter_def)

lemma keys_counter_add:
  "map fst (counter_add x c) = (if x \<in> fst ` set c then map fst c else map fst c @ [x])"
  by (induction c) (force simp: image_iff)+

lemma map_of_counter_add:
  "map_of (counter_add x c) y =
     (if y = x then Some (case map_of c x of None \<Rightarrow> 1 | Some n \<Rightarrow> n + 1) else map_of c y)"
  by (induction c) auto

lemma set_counter_keys: "set (counter_keys (Counter xs)) = set xs"
  by (induction xs rule: rev_induct)
     (auto simp: Counter_Nil Counter_snoc counter_keys_def keys_counter_add)

lemma distinct_counter_keys: "distinct (counter_keys (Counter xs))"
proof (induction xs rule: rev_induct)
  case Nil
  show ?case by (simp add: Counter_Nil counter_keys_def)
next
  case (snoc x xs)
  then show ?case
    using set_counter_keys [of xs]
    by (auto simp: Counter_snoc counter_keys_def keys_counter_add)
qed

lemma counter_get_Counter: "counter_get (Counter xs) x = count_list xs x"
proof (induction xs rule: rev_induct)
  case Nil
  show ?case by (simp add: Counter_Nil counter_get_def)
next
  case (snoc y ys)
  then show ?case
    by (auto simp: Counter_snoc counter_get_def map_of_counter_add split: option.splits)
qed

lemma counter_keys_by_first_occurrence:
  "sorted_wrt (\<lambda>a b. first_occurrence xs a < first_occurrence xs b) (counter_keys (Counter xs))"
proof (induction xs rule: rev_induct)
  case Nil
  show ?case by (simp add: Counter_Nil counter_keys_def)
next
  case (snoc y ys)
  have keys: "set (counter_keys (Counter ys)) = set ys" by (rule set_counter_keys)
  have same: "sorted_wrt (\<lambda>a b. first_occurrence (ys @ [y]) a < first_occurrence (ys @ [y]) b)
                (counter_keys (Counter ys))"
    using snoc keys by (auto simp: first_occurrence_snoc elim!: sorted_wrt_mono_rel [rotated])
  show ?case
  proof (cases "y \<in> set ys")
    case True
    then show ?thesis
      using same keys by (simp add: Counter_snoc counter_keys_def keys_counter_add) 
  next
    case False
    then have "counter_keys (Counter (ys @ [y])) = counter_keys (Counter ys) @ [y]"
      using keys by (simp add: Counter_snoc counter_keys_def keys_counter_add)
    moreover have "\<forall>a \<in> set (counter_keys (Counter ys)).
        first_occurrence (ys @ [y]) a < first_occurrence (ys @ [y]) y"
      using keys False by (auto simp: first_occurrence_snoc first_occurrence_less)
    ultimately show ?thesis
      using same by (simp add: sorted_wrt_append)
  qed
qed

lemma insort_key_sorted_wrt:
  assumes "sorted (map f ys)" "sorted_wrt R ys"
    and "\<forall>y \<in> set ys. f y < f x \<longrightarrow> R y x"
    and "\<forall>y \<in> set ys. f x \<le> f y \<longrightarrow> R x y"
  shows "sorted_wrt R (insort_key f x ys)"
  using assms
proof (induction ys)
  case Nil
  then show ?case by simp
next
  case (Cons y ys)
  show ?case
  proof (cases "f x \<le> f y")
    case True
    then have "\<forall>z \<in> set (y # ys). f x \<le> f z"
      using Cons.prems(1) by auto
    then show ?thesis
      using True Cons.prems by auto
  next
    case False
    then have "sorted_wrt R (insort_key f x ys)"
      using Cons by auto
    then show ?thesis
      using False Cons.prems by (auto simp: set_insort_key)
  qed
qed

lemma sort_key_stable_rank:
  fixes f :: "'a \<Rightarrow> int" and r :: "'a \<Rightarrow> nat"
  assumes "sorted_wrt (\<lambda>a b. r a < r b) xs"
  shows "sorted_wrt (\<lambda>a b. f a < f b \<or> (f a = f b \<and> r a < r b)) (sort_key f xs)"
  using assms
proof (induction xs)
  case Nil
  then show ?case by simp
next
  case (Cons x xs)
  have "sorted_wrt (\<lambda>a b. f a < f b \<or> (f a = f b \<and> r a < r b)) (insort_key f x (sort_key f xs))"
  proof (rule insort_key_sorted_wrt)
    show "sorted (map f (sort_key f xs))" by (rule sorted_sort_key)
    show "sorted_wrt (\<lambda>a b. f a < f b \<or> (f a = f b \<and> r a < r b)) (sort_key f xs)"
      using Cons by simp
    show "\<forall>y\<in>set (sort_key f xs). f y < f x \<longrightarrow> f y < f x \<or> (f y = f x \<and> r y < r x)"
      by simp
    show "\<forall>y\<in>set (sort_key f xs). f x \<le> f y \<longrightarrow> f x < f y \<or> (f x = f y \<and> r x < r y)"
      using Cons.prems by auto
  qed
  then show ?case by simp
qed

lemma collect_tokens_concat:
  "collect_tokens pairs s t = (s @ concat (map source pairs), t @ concat (map target pairs))"
  by (induction pairs arbitrary: s t) auto

lemma enumerate_dict_distinct:
  "distinct tokens \<Longrightarrow>
     enumerate_dict i tokens d t =
       (if t \<in> set tokens then Some (i + int (first_occurrence tokens t)) else d t)"
  by (induction tokens arbitrary: i d) (auto simp: first_occurrence_Cons)

lemma dom_enumerate_dict_empty:
  "distinct tokens \<Longrightarrow> dom (enumerate_dict 0 tokens Map.empty) = set tokens"
  by (auto simp: enumerate_dict_distinct dom_def)

lemma ran_enumerate_dict_empty:
  assumes "distinct tokens"
  shows "ran (enumerate_dict 0 tokens Map.empty) = int ` {0..<length tokens}"
proof
  show "ran (enumerate_dict 0 tokens Map.empty) \<subseteq> int ` {0..<length tokens}"
    using assms by (auto simp: ran_def enumerate_dict_distinct first_occurrence_less split: if_splits)
  show "int ` {0..<length tokens} \<subseteq> ran (enumerate_dict 0 tokens Map.empty)"
  proof
    fix v assume "v \<in> int ` {0..<length tokens}"
    then obtain i where i: "i < length tokens" "v = int i" by auto
    then have "enumerate_dict 0 tokens Map.empty (tokens ! i) = Some v"
      using assms by (simp add: enumerate_dict_distinct first_occurrence_distinct_nth)
    then show "v \<in> ran (enumerate_dict 0 tokens Map.empty)"
      by (auto simp: ran_def)
  qed
qed

lemma inj_on_enumerate_dict_empty:
  assumes "distinct tokens"
  shows "inj_on (enumerate_dict 0 tokens Map.empty) (set tokens)"
proof (rule inj_onI)
  fix a b assume ab: "a \<in> set tokens" "b \<in> set tokens"
    and eq: "enumerate_dict 0 tokens Map.empty a = enumerate_dict 0 tokens Map.empty b"
  then have "first_occurrence tokens a = first_occurrence tokens b"
    using assms by (simp add: enumerate_dict_distinct)
  then show "a = b"
    using ab first_occurrence_nth by metis
qed

lemma distinct_sorted_tokens: "distinct (sorted_tokens tokens)"
  by (simp add: sorted_tokens_def sorted_reverse_def Let_def distinct_counter_keys)

lemma set_sorted_tokens: "set (sorted_tokens tokens) = set tokens"
  by (simp add: sorted_tokens_def sorted_reverse_def Let_def set_counter_keys)

lemma length_sorted_tokens: "length (sorted_tokens tokens) = card (set tokens)"
  using distinct_card [OF distinct_sorted_tokens, of tokens] by (simp add: set_sorted_tokens)

lemma distinct_cut: "distinct xs \<Longrightarrow> distinct (apply_cutoff freq_cutoff xs)"
  by (auto simp: apply_cutoff_def slice_to_def split: option.splits)

lemma length_cut_None: "length (apply_cutoff None xs) = length xs"
  by (simp add: apply_cutoff_def)

lemma length_cut_Some: "0 \<le> k \<Longrightarrow> length (apply_cutoff (Some k) xs) = min (nat k) (length xs)"
  by (simp add: apply_cutoff_def slice_to_def)

lemma sorted_tokens_order:
  "sorted_wrt (\<lambda>a b. count_list tokens b < count_list tokens a
       \<or> (count_list tokens a = count_list tokens b
           \<and> first_occurrence tokens a < first_occurrence tokens b))
     (sorted_tokens tokens)"
proof -
  let ?f = "\<lambda>x. - int (counter_get (Counter tokens) x)"
  have "sorted_wrt (\<lambda>a b. ?f a < ?f b \<or> (?f a = ?f b \<and> first_occurrence tokens a < first_occurrence tokens b))
          (sort_key ?f (counter_keys (Counter tokens)))"
    by (rule sort_key_stable_rank) (rule counter_keys_by_first_occurrence)
  then show ?thesis
    by (simp add: sorted_tokens_def sorted_reverse_def Let_def counter_get_Counter)
qed

lemma get_token_to_index_eq:
  "get_token_to_index sentence_pairs freq_cutoff =
     (enumerate_dict 0 (apply_cutoff freq_cutoff (sorted_tokens (concat (map source sentence_pairs)))) Map.empty,
      enumerate_dict 0 (apply_cutoff freq_cutoff (sorted_tokens (concat (map target sentence_pairs)))) Map.empty)"
  by (simp add: get_token_to_index_def collect_tokens_concat)



lemma distinct_vocabulary: "distinct (vocabulary freq_cutoff tokens)"
  by (simp add: vocabulary_def distinct_cut distinct_sorted_tokens)

lemma dict_dense:
  fixes d :: "string \<rightharpoonup> int"
  assumes "d = enumerate_dict 0 (vocabulary freq_cutoff tokens) Map.empty"
  shows "finite (dom d)"
    and "ran d = int ` {0..<card (dom d)}"
    and "inj_on d (dom d)"
    and "freq_cutoff = None \<Longrightarrow> card (dom d) = card (set tokens)"
    and "freq_cutoff = Some k \<Longrightarrow> 0 < k \<Longrightarrow> int (card (dom d)) \<le> k"
proof -
  let ?v = "vocabulary freq_cutoff tokens"
  have dv: "distinct ?v" by (rule distinct_vocabulary)
  have dom: "dom d = set ?v"
    using assms dv by (simp add: dom_enumerate_dict_empty)
  then show "finite (dom d)" by simp
  have card: "card (dom d) = length ?v"
    using dom dv by (simp add: distinct_card)
  show "ran d = int ` {0..<card (dom d)}"
    using assms dv card by (simp add: ran_enumerate_dict_empty)
  show "inj_on d (dom d)"
    using assms dv dom inj_on_enumerate_dict_empty [of ?v] by simp
  show "card (dom d) = card (set tokens)" if "freq_cutoff = None"
    using that card by (simp add: vocabulary_def apply_cutoff_def length_sorted_tokens)
  show "int (card (dom d)) \<le> k" if "freq_cutoff = Some k" "0 < k"
    using that card by (simp add: vocabulary_def length_cut_Some)
qed

text \<open>
  C5. Each of the two maps that \<open>get_token_to_index\<close> returns takes exactly the values
  \<open>0, \<dots>, size - 1\<close>, where \<open>size\<close> is its number of keys, and no value twice.
  Without a cutoff \<open>size\<close> is the number of distinct tokens of the language; with a
  positive cutoff \<open>k\<close> it is at most \<open>k\<close>.
\<close>

theorem get_token_to_index_dense:
  assumes "get_token_to_index sentence_pairs freq_cutoff = (source_dict, target_dict)"
  shows "finite (dom source_dict) \<and> finite (dom target_dict)
    \<and> ran source_dict = int ` {0..<card (dom source_dict)}
    \<and> ran target_dict = int ` {0..<card (dom target_dict)}
    \<and> inj_on source_dict (dom source_dict) \<and> inj_on target_dict (dom target_dict)
    \<and> (freq_cutoff = None \<longrightarrow>
          card (dom source_dict) = card (set (concat (map source sentence_pairs)))
        \<and> card (dom target_dict) = card (set (concat (map target sentence_pairs))))
    \<and> (\<forall>k. freq_cutoff = Some k \<and> 0 < k \<longrightarrow>
          int (card (dom source_dict)) \<le> k \<and> int (card (dom target_dict)) \<le> k)"
proof -
  have s: "source_dict = enumerate_dict 0 (vocabulary freq_cutoff (concat (map source sentence_pairs))) Map.empty"
    and t: "target_dict = enumerate_dict 0 (vocabulary freq_cutoff (concat (map target sentence_pairs))) Map.empty"
    using assms by (simp_all add: get_token_to_index_eq vocabulary_def)
  show ?thesis
    using dict_dense [OF s] dict_dense [OF t] by blast
qed

theorem get_token_to_index_dense_witness:
  "get_token_to_index [\<lparr>source = [''a'', ''a'', ''b''], target = [''x'', ''y'']\<rparr>] (Some 1)
     = ([''a'' \<mapsto> 0], [''x'' \<mapsto> 0])
   \<and> ran [''a'' \<mapsto> 0::int] = int ` {0..<card (dom [''a'' \<mapsto> 0::int])}
   \<and> int (card (dom [''a'' \<mapsto> 0::int])) \<le> 1"
proof -
  have e: "get_token_to_index [\<lparr>source = [''a'', ''a'', ''b''], target = [''x'', ''y'']\<rparr>] (Some 1)
     = ([''a'' \<mapsto> 0], [''x'' \<mapsto> 0])"
    by (simp add: get_token_to_index_def sorted_tokens_def Counter_def counter_keys_def
        counter_get_def sorted_reverse_def apply_cutoff_def slice_to_def)
  show ?thesis
    using e get_token_to_index_dense [OF e] by simp
qed

lemma vocabulary_prefix: "\<exists>n. vocabulary freq_cutoff tokens = take n (sorted_tokens tokens)"
  by (cases freq_cutoff) (auto simp: vocabulary_def apply_cutoff_def slice_to_def intro: exI [of _ "length (sorted_tokens tokens)"])

lemma dict_order:
  fixes d :: "string \<rightharpoonup> int"
  assumes d: "d = enumerate_dict 0 (vocabulary freq_cutoff tokens) Map.empty"
    and a: "d a = Some i" and b: "d b = Some j"
  shows "i < j \<longleftrightarrow>
    count_list tokens b < count_list tokens a
      \<or> (count_list tokens a = count_list tokens b
          \<and> first_occurrence tokens a < first_occurrence tokens b)"
proof -
  let ?v = "vocabulary freq_cutoff tokens"
  let ?R = "\<lambda>a b. count_list tokens b < count_list tokens a
      \<or> (count_list tokens a = count_list tokens b
          \<and> first_occurrence tokens a < first_occurrence tokens b)"
  have dv: "distinct ?v" by (rule distinct_vocabulary)
  obtain n where n: "?v = take n (sorted_tokens tokens)"
    using vocabulary_prefix by blast
  have sw: "sorted_wrt ?R ?v"
    unfolding n by (rule sorted_wrt_take) (rule sorted_tokens_order)
  have ia: "a \<in> set ?v" "i = int (first_occurrence ?v a)"
    using a d dv by (auto simp: enumerate_dict_distinct split: if_splits)
  have jb: "b \<in> set ?v" "j = int (first_occurrence ?v b)"
    using b d dv by (auto simp: enumerate_dict_distinct split: if_splits)
  let ?p = "first_occurrence ?v a" and ?q = "first_occurrence ?v b"
  have pa: "?p < length ?v" "?v ! ?p = a" and qb: "?q < length ?v" "?v ! ?q = b"
    using ia jb by (simp_all add: first_occurrence_less first_occurrence_nth)
  have lt: "?R (?v ! x) (?v ! y)" if "x < y" "y < length ?v" for x y
    using sw that by (simp add: sorted_wrt_iff_nth_less)
  show ?thesis
  proof
    assume "i < j"
    then have "?p < ?q" using ia jb by simp
    then show "?R a b" using lt [of ?p ?q] pa qb by simp
  next
    assume R: "?R a b"
    show "i < j"
    proof (rule ccontr)
      assume "\<not> i < j"
      then have "?q \<le> ?p" using ia jb by simp
      then consider "?q = ?p" | "?q < ?p" by linarith
      then show False
      proof cases
        case 1
        then have "a = b" using pa qb by simp
        then show False using R by simp
      next
        case 2
        then have "?R b a" using lt [of ?q ?p] pa qb by simp
        then show False using R by auto
      qed
    qed
  qed
qed

text \<open>
  C9. The order of the indices is fixed by the input: of two tokens of one map, the one
  with the smaller index is the one that occurs more often in the concatenated token
  list of its language or, at equal frequency, the one whose first occurrence there is
  earlier. The token strings themselves play no part.
\<close>

theorem get_token_to_index_tie_break:
  assumes "get_token_to_index sentence_pairs freq_cutoff = (source_dict, target_dict)"
  shows "(\<forall>a b i j. source_dict a = Some i \<and> source_dict b = Some j \<longrightarrow>
      (i < j \<longleftrightarrow>
         count_list (concat (map source sentence_pairs)) b < count_list (concat (map source sentence_pairs)) a
         \<or> (count_list (concat (map source sentence_pairs)) a = count_list (concat (map source sentence_pairs)) b
            \<and> first_occurrence (concat (map source sentence_pairs)) a
                < first_occurrence (concat (map source sentence_pairs)) b)))
    \<and> (\<forall>a b i j. target_dict a = Some i \<and> target_dict b = Some j \<longrightarrow>
      (i < j \<longleftrightarrow>
         count_list (concat (map target sentence_pairs)) b < count_list (concat (map target sentence_pairs)) a
         \<or> (count_list (concat (map target sentence_pairs)) a = count_list (concat (map target sentence_pairs)) b
            \<and> first_occurrence (concat (map target sentence_pairs)) a
                < first_occurrence (concat (map target sentence_pairs)) b)))"
proof -
  have s: "source_dict = enumerate_dict 0 (vocabulary freq_cutoff (concat (map source sentence_pairs))) Map.empty"
    and t: "target_dict = enumerate_dict 0 (vocabulary freq_cutoff (concat (map target sentence_pairs))) Map.empty"
    using assms by (simp_all add: get_token_to_index_eq vocabulary_def)
  show ?thesis
    using dict_order [OF s] dict_order [OF t] by blast
qed

theorem get_token_to_index_tie_break_witness:
  "get_token_to_index [\<lparr>source = [''b'', ''a'', ''c'', ''a'', ''b''], target = [''y'', ''x'']\<rparr>] None
     = ([''b'' \<mapsto> 0, ''a'' \<mapsto> 1, ''c'' \<mapsto> 2], [''y'' \<mapsto> 0, ''x'' \<mapsto> 1])
   \<and> count_list [''b'', ''a'', ''c'', ''a'', ''b''] ''a'' = count_list [''b'', ''a'', ''c'', ''a'', ''b''] ''b''
   \<and> first_occurrence [''b'', ''a'', ''c'', ''a'', ''b''] ''b'' < first_occurrence [''b'', ''a'', ''c'', ''a'', ''b''] ''a''"
proof -
  have e: "get_token_to_index [\<lparr>source = [''b'', ''a'', ''c'', ''a'', ''b''], target = [''y'', ''x'']\<rparr>] None
     = ([''b'' \<mapsto> 0, ''a'' \<mapsto> 1, ''c'' \<mapsto> 2], [''y'' \<mapsto> 0, ''x'' \<mapsto> 1])"
    by (simp add: get_token_to_index_def sorted_tokens_def Counter_def counter_keys_def
        counter_get_def sorted_reverse_def apply_cutoff_def slice_to_def)
  have "((0::int) < 1) =
         (count_list (concat (map source [\<lparr>source = [''b'', ''a'', ''c'', ''a'', ''b''], target = [''y'', ''x'']\<rparr>])) ''a''
           < count_list (concat (map source [\<lparr>source = [''b'', ''a'', ''c'', ''a'', ''b''], target = [''y'', ''x'']\<rparr>])) ''b''
         \<or> (count_list (concat (map source [\<lparr>source = [''b'', ''a'', ''c'', ''a'', ''b''], target = [''y'', ''x'']\<rparr>])) ''b''
              = count_list (concat (map source [\<lparr>source = [''b'', ''a'', ''c'', ''a'', ''b''], target = [''y'', ''x'']\<rparr>])) ''a''
            \<and> first_occurrence (concat (map source [\<lparr>source = [''b'', ''a'', ''c'', ''a'', ''b''], target = [''y'', ''x'']\<rparr>])) ''b''
                < first_occurrence (concat (map source [\<lparr>source = [''b'', ''a'', ''c'', ''a'', ''b''], target = [''y'', ''x'']\<rparr>])) ''a''))"
    by (rule get_token_to_index_tie_break [OF e, THEN conjunct1, rule_format, of "''b''" 0 "''a''" 1]) simp
  then show ?thesis
    using e by (simp add: first_occurrence_def)
qed

lemma enumerate_dict_nth:
  "distinct tokens \<Longrightarrow> i < length tokens \<Longrightarrow>
     enumerate_dict 0 tokens Map.empty (tokens ! i) = Some (int i)"
  by (simp add: enumerate_dict_distinct first_occurrence_distinct_nth)

text \<open>
  C10. \<open>freq_cutoff\<close> is not checked. With the cutoff 0 both maps are empty, and
  \<open>tokenize_sents\<close> with them returns no pair. With a negative cutoff \<open>n\<close> each map
  holds all but the last \<open>|n|\<close> tokens of the frequency-sorted list of its language,
  each at its position in that list; no error arises.
\<close>

theorem get_token_to_index_unvalidated_cutoff:
  "get_token_to_index sentence_pairs (Some 0) = (Map.empty, Map.empty)
   \<and> tokenize_sents pairs (fst (get_token_to_index sentence_pairs (Some 0)))
        (snd (get_token_to_index sentence_pairs (Some 0))) = []
   \<and> (\<forall>n < 0.
        dom (fst (get_token_to_index sentence_pairs (Some n)))
          = set (take (length (sorted_tokens (concat (map source sentence_pairs))) - nat \<bar>n\<bar>)
                  (sorted_tokens (concat (map source sentence_pairs))))
      \<and> dom (snd (get_token_to_index sentence_pairs (Some n)))
          = set (take (length (sorted_tokens (concat (map target sentence_pairs))) - nat \<bar>n\<bar>)
                  (sorted_tokens (concat (map target sentence_pairs))))
      \<and> (\<forall>i. i + nat \<bar>n\<bar> < length (sorted_tokens (concat (map source sentence_pairs))) \<longrightarrow>
            fst (get_token_to_index sentence_pairs (Some n))
              (sorted_tokens (concat (map source sentence_pairs)) ! i) = Some (int i))
      \<and> (\<forall>i. i + nat \<bar>n\<bar> < length (sorted_tokens (concat (map target sentence_pairs))) \<longrightarrow>
            snd (get_token_to_index sentence_pairs (Some n))
              (sorted_tokens (concat (map target sentence_pairs)) ! i) = Some (int i)))"
proof -
  have zero: "get_token_to_index sentence_pairs (Some 0) = (Map.empty, Map.empty)"
    by (simp add: get_token_to_index_eq apply_cutoff_def slice_to_def)
  have neg: "dom (enumerate_dict 0 (apply_cutoff (Some n) (sorted_tokens tokens)) Map.empty)
        = set (take (length (sorted_tokens tokens) - nat \<bar>n\<bar>) (sorted_tokens tokens))
      \<and> (\<forall>i. i + nat \<bar>n\<bar> < length (sorted_tokens tokens) \<longrightarrow>
            enumerate_dict 0 (apply_cutoff (Some n) (sorted_tokens tokens)) Map.empty
              (sorted_tokens tokens ! i) = Some (int i))"
    if "n < 0" for n and tokens :: "string list"
  proof -
    let ?kept = "take (length (sorted_tokens tokens) - nat \<bar>n\<bar>) (sorted_tokens tokens)"
    have k: "apply_cutoff (Some n) (sorted_tokens tokens) = ?kept"
      using that by (simp add: apply_cutoff_def slice_to_def abs_if)
    have d: "distinct ?kept"
      by (simp add: distinct_sorted_tokens)
    have "enumerate_dict 0 ?kept Map.empty (sorted_tokens tokens ! i) = Some (int i)"
      if "i + nat \<bar>n\<bar> < length (sorted_tokens tokens)" for i
    proof -
      have "i < length ?kept" using that by simp
      then have "enumerate_dict 0 ?kept Map.empty (?kept ! i) = Some (int i)"
        using d by (rule enumerate_dict_nth [rotated])
      then show ?thesis using \<open>i < length ?kept\<close> by simp
    qed
    then show ?thesis
      unfolding k using d by (simp add: dom_enumerate_dict_empty)
  qed
  show ?thesis
    using zero neg by (simp add: tokenize_sents_empty_dicts get_token_to_index_eq)
qed

theorem get_token_to_index_unvalidated_cutoff_witness:
  "(-1::int) < 0
   \<and> get_token_to_index [\<lparr>source = [''a'', ''a'', ''b''], target = [''x'', ''y'', ''y'', ''z'']\<rparr>] (Some (-1))
       = ([''a'' \<mapsto> 0], [''y'' \<mapsto> 0, ''x'' \<mapsto> 1])
   \<and> sorted_tokens [''x'', ''y'', ''y'', ''z''] = [''y'', ''x'', ''z'']
   \<and> dom [''y'' \<mapsto> 0::int, ''x'' \<mapsto> 1] = set (take (3 - 1) [''y'', ''x'', ''z''])"
proof -
  have e: "get_token_to_index [\<lparr>source = [''a'', ''a'', ''b''], target = [''x'', ''y'', ''y'', ''z'']\<rparr>] (Some (-1))
       = ([''a'' \<mapsto> 0], [''y'' \<mapsto> 0, ''x'' \<mapsto> 1])"
    by (simp add: get_token_to_index_def sorted_tokens_def Counter_def counter_keys_def
        counter_get_def sorted_reverse_def apply_cutoff_def slice_to_def)
  have s: "sorted_tokens [''x'', ''y'', ''y'', ''z''] = [''y'', ''x'', ''z'']"
    by (simp add: sorted_tokens_def Counter_def counter_keys_def counter_get_def sorted_reverse_def)
  have "dom (snd (get_token_to_index
          [\<lparr>source = [''a'', ''a'', ''b''], target = [''x'', ''y'', ''y'', ''z'']\<rparr>] (Some (-1))))
      = set (take (length (sorted_tokens (concat (map target
          [\<lparr>source = [''a'', ''a'', ''b''], target = [''x'', ''y'', ''y'', ''z'']\<rparr>]))) - nat \<bar>-1\<bar>)
          (sorted_tokens (concat (map target
          [\<lparr>source = [''a'', ''a'', ''b''], target = [''x'', ''y'', ''y'', ''z'']\<rparr>]))))"
    using get_token_to_index_unvalidated_cutoff
      [of "[\<lparr>source = [''a'', ''a'', ''b''], target = [''x'', ''y'', ''y'', ''z'']\<rparr>]"]
    by simp
  then show ?thesis
    using e s by simp
qed

end
